theory Spec2Isabelle
  imports Main
begin

section \<open>cypress-repeat-pro: the repeat-run orchestrator of \<open>index.js\<close>\<close>

text \<open>
  The script parses its own flags, builds one run-options object per attempt
  (\<open>index.js\<close> lines 70-95), runs the attempts one after the other with
  \<open>Bluebird.mapSeries\<close> (lines 96-158), prints and writes a summary in a
  \<open>finally\<close> handler (lines 159-186) and logs a rejection in a \<open>catch\<close> handler
  (lines 187-192).

  JavaScript numbers are modelled as \<open>int\<close> (the counts of a test run are integers),
  an absent or \<open>undefined\<close> property as \<open>None\<close> or \<open>VUndefined\<close>, a thrown exception
  or a rejected promise as an error message.
\<close>

subsection \<open>Decimal rendering of numbers (template literals, \<open>%d\<close>)\<close>

definition digit_char :: "nat \<Rightarrow> char" where
  "digit_char d = char_of (48 + d)"

fun show_nat :: "nat \<Rightarrow> string" where
  "show_nat n = (if n < 10 then [digit_char n] else show_nat (n div 10) @ [digit_char (n mod 10)])"

declare show_nat.simps [simp del]

definition show_int :: "int \<Rightarrow> string" where
  "show_int i = (if i < 0 then CHR ''-'' # show_nat (nat (- i)) else show_nat (nat i))"

text \<open>\<open>Array.prototype.join\<close> on an array of strings.\<close>

fun join :: "string \<Rightarrow> string list \<Rightarrow> string" where
  "join sep [] = []"
| "join sep [x] = x"
| "join sep (x # y # ys) = x @ sep @ join sep (y # ys)"

text \<open>The lines of a text: the pieces between its newline characters.\<close>

fun split_lines :: "string \<Rightarrow> string list" where
  "split_lines [] = [[]]"
| "split_lines (c # cs) =
     (if c = CHR 0x0A then [] # split_lines cs
      else (case split_lines cs of l # ls \<Rightarrow> (c # l) # ls | [] \<Rightarrow> [[c]]))"

subsection \<open>JavaScript values, objects and the heap\<close>

text \<open>
  Objects live in a store and are named by their address, so that two variables can
  share one object. A store is a list of objects; the address of an object is its
  index, and a new object is appended. An object is the list of its own properties in
  insertion order.
\<close>

type_synonym addr = nat

datatype jsval =
    VUndefined
  | VNull
  | VBool bool
  | VNum int
  | VStr string
  | VRef addr

type_synonym obj = "(string \<times> jsval) list"

type_synonym heap = "obj list"

text \<open>Truthiness, as \<open>if (x)\<close>, \<open>x && y\<close> and \<open>x ? a : b\<close> test it.\<close>

fun truthy :: "jsval \<Rightarrow> bool" where
  "truthy VUndefined = False"
| "truthy VNull = False"
| "truthy (VBool b) = b"
| "truthy (VNum n) = (n \<noteq> 0)"
| "truthy (VStr s) = (s \<noteq> [])"
| "truthy (VRef a) = True"

text \<open>The string a value becomes when it is concatenated to a string with \<open>+\<close>.\<close>

fun to_string :: "jsval \<Rightarrow> string" where
  "to_string VUndefined = ''undefined''"
| "to_string VNull = ''null''"
| "to_string (VBool b) = (if b then ''true'' else ''false'')"
| "to_string (VNum n) = show_int n"
| "to_string (VStr s) = s"
| "to_string (VRef a) = ''[object Object]''"

text \<open>Reading \<open>o.key\<close> (a property that is not there reads as \<open>undefined\<close>) and
  assigning \<open>o.key = v\<close> (an existing property keeps its place, a new one goes last).\<close>

definition get_prop :: "heap \<Rightarrow> addr \<Rightarrow> string \<Rightarrow> jsval" where
  "get_prop h a key =
     (if a < length h then (case map_of (h ! a) key of None \<Rightarrow> VUndefined | Some v \<Rightarrow> v)
      else VUndefined)"

fun assign :: "obj \<Rightarrow> string \<Rightarrow> jsval \<Rightarrow> obj" where
  "assign [] key v = [(key, v)]"
| "assign ((k, w) # ps) key v = (if k = key then (k, v) # ps else (k, w) # assign ps key v)"

definition set_prop :: "heap \<Rightarrow> addr \<Rightarrow> string \<Rightarrow> jsval \<Rightarrow> heap" where
  "set_prop h a key v = (if a < length h then h[a := assign (h ! a) key v] else h)"

subsection \<open>\<open>clone\<close>: \<open>JSON.parse(JSON.stringify(x))\<close> (line 60)\<close>

datatype json =
    JNull
  | JBool bool
  | JNum int
  | JStr string
  | JObj "(string \<times> json) list"

text \<open>
  \<open>JSON.stringify\<close> walks the object graph from the value it is given. A property
  whose value is \<open>undefined\<close> is left out. An object that contains itself makes it throw
  a \<open>TypeError\<close>: the walk below carries the number of objects it may still enter, and
  started with the size of the store it runs out exactly when some path from the root
  enters an object twice.
\<close>

fun stringify :: "nat \<Rightarrow> heap \<Rightarrow> jsval \<Rightarrow> string + json option"
  and stringify_props :: "nat \<Rightarrow> heap \<Rightarrow> obj \<Rightarrow> string + (string \<times> json) list" where
  "stringify n h VUndefined = Inr None"
| "stringify n h VNull = Inr (Some JNull)"
| "stringify n h (VBool b) = Inr (Some (JBool b))"
| "stringify n h (VNum i) = Inr (Some (JNum i))"
| "stringify n h (VStr s) = Inr (Some (JStr s))"
| "stringify 0 h (VRef a) = Inl ''TypeError: Converting circular structure to JSON''"
| "stringify (Suc n) h (VRef a) =
     (if a < length h then
        (case stringify_props n h (h ! a) of
           Inl e \<Rightarrow> Inl e
         | Inr ps \<Rightarrow> Inr (Some (JObj ps)))
      else Inl ''TypeError: Converting circular structure to JSON'')"
| "stringify_props n h [] = Inr []"
| "stringify_props n h ((k, v) # kvs) =
     (case stringify n h v of
        Inl e \<Rightarrow> Inl e
      | Inr None \<Rightarrow> stringify_props n h kvs
      | Inr (Some j) \<Rightarrow>
          (case stringify_props n h kvs of
             Inl e \<Rightarrow> Inl e
           | Inr ps \<Rightarrow> Inr ((k, j) # ps)))"

text \<open>\<open>JSON.parse\<close> builds new objects for the text it reads: every object of the
  result is allocated at the end of the store.\<close>

fun parse :: "json \<Rightarrow> heap \<Rightarrow> jsval \<times> heap"
  and parse_props :: "(string \<times> json) list \<Rightarrow> heap \<Rightarrow> obj \<times> heap" where
  "parse JNull h = (VNull, h)"
| "parse (JBool b) h = (VBool b, h)"
| "parse (JNum i) h = (VNum i, h)"
| "parse (JStr s) h = (VStr s, h)"
| "parse (JObj ps) h = (case parse_props ps h of (kvs, h1) \<Rightarrow> (VRef (length h1), h1 @ [kvs]))"
| "parse_props [] h = ([], h)"
| "parse_props ((k, j) # ps) h =
     (case parse j h of (v, h1) \<Rightarrow>
        (case parse_props ps h1 of (kvs, h2) \<Rightarrow> ((k, v) # kvs, h2)))"

text \<open>\<open>clone\<close> of an object. \<open>JSON.parse(undefined)\<close> throws a \<open>SyntaxError\<close>.\<close>

definition clone :: "heap \<Rightarrow> jsval \<Rightarrow> string + (jsval \<times> heap)" where
  "clone h x =
     (case stringify (length h) h x of
        Inl e \<Rightarrow> Inl e
      | Inr None \<Rightarrow> Inl ''SyntaxError: \"undefined\" is not valid JSON''
      | Inr (Some j) \<Rightarrow> Inr (parse j h))"

subsection \<open>Flags and counters (lines 30-55)\<close>

record cli_args =
  arg_n :: "int option"
  arg_until_passes :: "bool option"
  arg_rerun_failed_only :: "bool option"
  arg_force :: "bool option"
  arg_rest :: "string list"

record mode =
  repeatNtimes :: int
  untilPasses :: bool
  rerunFailedOnly :: bool
  forceContinue :: bool

text \<open>\<open>args['-n'] || 1\<close> and \<open>args['--flag'] || false\<close>.\<close>

definition mode_of :: "cli_args \<Rightarrow> mode" where
  "mode_of args =
     \<lparr> repeatNtimes = (case arg_n args of None \<Rightarrow> 1 | Some n \<Rightarrow> if n = 0 then 1 else n),
       untilPasses = (case arg_until_passes args of None \<Rightarrow> False | Some b \<Rightarrow> b),
       rerunFailedOnly = (case arg_rerun_failed_only args of None \<Rightarrow> False | Some b \<Rightarrow> b),
       forceContinue = (case arg_force args of None \<Rightarrow> False | Some b \<Rightarrow> b) \<rparr>"

definition name :: string where
  "name = ''cypress-repeat-pro:''"

text \<open>What \<open>cypress.run\<close> resolves to, as far as the script reads it: the status with the
  \<open>failures\<close> and \<open>message\<close> of a run that could not start, the four totals, and for each
  spec file \<open>stats.failures\<close> and \<open>spec.relative\<close>.\<close>

record run =
  stats_failures :: int
  spec_relative :: string

record testResults =
  status :: string
  failures :: "int option"
  message :: "string option"
  r_totalTests :: "int option"
  r_totalPassed :: "int option"
  r_totalFailed :: "int option"
  r_totalSkipped :: "int option"
  runs :: "run list option"

datatype stream = Stdout | Stderr

text \<open>
  The state of the script: the store, the counters of lines 51-55 and what the script
  has done to the outside: the lines printed by \<open>console.log\<close> and \<open>console.error\<close>, the
  calls of \<open>cypress.run\<close> (attempt index, the properties of the options object passed,
  what the call settled to) and the contents passed to \<open>fs.writeFileSync\<close>.
\<close>

record call =
  call_k :: nat
  call_options :: obj
  call_result :: "string + testResults"

record state =
  heap :: heap
  anyTestFailed :: bool
  totalTests :: int
  totalPassed :: int
  totalFailed :: int
  totalSkipped :: int
  console :: "(stream \<times> string) list"
  calls :: "call list"
  writes :: "string list"

definition log :: "string \<Rightarrow> state \<Rightarrow> state" where
  "log x s = s\<lparr>console := console s @ [(Stdout, x)]\<rparr>"

definition error :: "string \<Rightarrow> state \<Rightarrow> state" where
  "error x s = s\<lparr>console := console s @ [(Stderr, x)]\<rparr>"

text \<open>\<open>x || 0\<close> on a number that may be missing, and the truthiness of such a number.\<close>

definition or0 :: "int option \<Rightarrow> int" where
  "or0 x = (case x of None \<Rightarrow> 0 | Some v \<Rightarrow> if v = 0 then 0 else v)"

definition truthy_num :: "int option \<Rightarrow> bool" where
  "truthy_num x = (case x of None \<Rightarrow> False | Some v \<Rightarrow> v \<noteq> 0)"

subsection \<open>\<open>parseArguments\<close> (lines 62-68)\<close>

definition cliArgs_of :: "string list \<Rightarrow> string list" where
  "cliArgs_of rest =
     (let c1 = (case rest of [] \<Rightarrow> [''cypress'']
                | x # xs \<Rightarrow> if x \<noteq> ''cypress'' then ''cypress'' # rest else rest)
      in case c1 of
           [] \<Rightarrow> [''run'']
         | [x] \<Rightarrow> [x, ''run'']
         | x # y # ys \<Rightarrow> if y \<noteq> ''run'' then x # ''run'' # y # ys else c1)"

subsection \<open>The run options of each attempt (lines 71-95)\<close>

text \<open>The body of the loop after the clone: lines 77-90.\<close>

definition envVariables :: "mode \<Rightarrow> nat \<Rightarrow> string" where
  "envVariables m k =
     ''cypress_repeat_n='' @ show_int (repeatNtimes m) @ '',cypress_repeat_k='' @ show_nat (k + 1)"

definition set_env :: "mode \<Rightarrow> nat \<Rightarrow> addr \<Rightarrow> heap \<Rightarrow> heap" where
  "set_env m k runOptions h =
     (let env = get_prop h runOptions ''env''
      in set_prop h runOptions ''env''
           (VStr (if truthy env then to_string env @ '','' @ envVariables m k
                  else envVariables m k)))"

definition set_group :: "mode \<Rightarrow> nat \<Rightarrow> addr \<Rightarrow> addr \<Rightarrow> heap \<Rightarrow> heap" where
  "set_group m k options runOptions h =
     (if truthy (get_prop h options ''record'') \<and> truthy (get_prop h options ''group'') then
        (let h1 = set_prop h runOptions ''group'' (get_prop h options ''group'')
         in if truthy (get_prop h1 runOptions ''group'') \<and> repeatNtimes m > 1 then
              set_prop h1 runOptions ''group''
                (VStr (to_string (get_prop h1 runOptions ''group'')
                       @ ''-'' @ show_nat (k + 1) @ ''-of-'' @ show_int (repeatNtimes m)))
            else h1)
      else h)"

definition set_force :: "mode \<Rightarrow> addr \<Rightarrow> heap \<Rightarrow> heap" where
  "set_force m runOptions h =
     (if forceContinue m then set_prop h runOptions ''force'' (VBool True) else h)"

text \<open>
  The loop \<open>for (let k = 0; k < repeatNtimes; k++)\<close>. \<open>options\<close> is the object that
  \<open>parseRunArguments\<close> resolved to. The clone of an object is an object (lemma
  \<open>clone_ref\<close> below), so the last case never happens.
\<close>

function build :: "mode \<Rightarrow> addr \<Rightarrow> nat \<Rightarrow> addr list \<Rightarrow> heap \<Rightarrow> string + (addr list \<times> heap)" where
  "build m options k allRunOptions h =
     (if int k < repeatNtimes m then
        (case clone h (VRef options) of
           Inl e \<Rightarrow> Inl e
         | Inr (VRef runOptions, h1) \<Rightarrow>
             build m options (Suc k) (allRunOptions @ [runOptions])
               (set_force m runOptions (set_group m k options runOptions (set_env m k runOptions h1)))
         | Inr (_, h1) \<Rightarrow> Inl ''TypeError'')
      else Inr (allRunOptions, h))"
  by pat_completeness auto
termination
  by (relation "measure (\<lambda>(m, options, k, allRunOptions, h). nat (repeatNtimes m) - k)") auto

declare build.simps [simp del]

subsection \<open>\<open>onTestResults\<close> (lines 101-154)\<close>

text \<open>A promise settles: it resolves or it rejects with an error, of which the script
  reads the message. An exception thrown in a handler rejects the promise of the
  handler.\<close>

datatype settled = Resolved | Rejected string

definition update_totals :: "testResults \<Rightarrow> state \<Rightarrow> state" where
  "update_totals r s =
     s\<lparr> totalTests := totalTests s + or0 (r_totalTests r),
        totalPassed := totalPassed s + or0 (r_totalPassed r),
        totalFailed := totalFailed s + or0 (r_totalFailed r),
        totalSkipped := totalSkipped s + or0 (r_totalSkipped r) \<rparr>"

definition failedSpecs_of :: "run list \<Rightarrow> string" where
  "failedSpecs_of rs = join '','' (map spec_relative (filter (\<lambda>run. stats_failures run \<noteq> 0) rs))"

text \<open>Each part of the handler either returns (\<open>Some\<close> of how the promise settles) or
  falls through to the next statement (\<open>None\<close>).\<close>

text \<open>Lines 109-125.\<close>

definition rerun_part ::
  "mode \<Rightarrow> addr list \<Rightarrow> nat \<Rightarrow> bool \<Rightarrow> testResults \<Rightarrow> state \<Rightarrow> settled option \<times> state" where
  "rerun_part m allRunOptions k isLastRun r s =
     (if rerunFailedOnly m \<and> \<not> isLastRun then
        (case runs r of
           None \<Rightarrow>
             (Some (Rejected ''Cannot read properties of undefined (reading 'filter')''), s)
         | Some rs \<Rightarrow>
             (let failedSpecs = failedSpecs_of rs
              in if failedSpecs \<noteq> [] then
                   (let s1 = log failedSpecs (log (name @ '' failed specs'') s)
                    in if k + 1 < length allRunOptions then
                         (None, s1\<lparr>heap := set_prop (heap s1) (allRunOptions ! (k + 1)) ''spec''
                                              (VStr failedSpecs)\<rparr>)
                       else
                         (Some (Rejected ''Cannot set properties of undefined (setting 'spec')''), s1))
                 else
                   (let s1 = log (name @ '' there were no failed specs'') s
                    in if \<not> forceContinue m then (Some Resolved, s1) else (None, s1))))
      else (None, s))"

text \<open>Lines 127-135.\<close>

definition status_part :: "mode \<Rightarrow> testResults \<Rightarrow> state \<Rightarrow> settled option \<times> state" where
  "status_part m r s =
     (if status r = ''failed'' then
        (if truthy_num (failures r) then
           (let s1 = (error (case message r of None \<Rightarrow> ''undefined'' | Some msg \<Rightarrow> msg) s)
                       \<lparr>anyTestFailed := True\<rparr>
            in if \<not> forceContinue m then (Some (Rejected ''Test results indicate failures''), s1)
               else (None, s1))
         else (None, s))
      else (None, s))"

text \<open>Lines 137-153; falling off the end of the handler resolves.\<close>

definition of_line :: "nat \<Rightarrow> nat \<Rightarrow> string" where
  "of_line k n = show_nat (k + 1) @ '' of '' @ show_nat n"

definition verdict_part ::
  "mode \<Rightarrow> nat \<Rightarrow> nat \<Rightarrow> bool \<Rightarrow> testResults \<Rightarrow> state \<Rightarrow> settled \<times> state" where
  "verdict_part m k n isLastRun r s =
     (if untilPasses m then
        (if \<not> truthy_num (r_totalFailed r) then
           (Rejected ''No failures detected, exiting with success.'',
            log (name @ '' successfully passed on run '' @ of_line k n) s)
         else
           (let s1 = error (name @ '' run '' @ of_line k n @ '' failed'') s
            in if \<not> forceContinue m \<and> int k = int n - 1 then (Rejected ''No more attempts left'', s1)
               else (Resolved, s1)))
      else
        (if truthy_num (r_totalFailed r) then
           (let s1 = error (name @ '' run '' @ of_line k n @ '' failed'') s
            in if \<not> forceContinue m \<and> (\<not> rerunFailedOnly m \<or> isLastRun) then
                 (Rejected ''Failures detected and conditions met'', s1)
               else (Resolved, s1))
         else (Resolved, s)))"

definition onTestResults ::
  "mode \<Rightarrow> addr list \<Rightarrow> nat \<Rightarrow> nat \<Rightarrow> testResults \<Rightarrow> state \<Rightarrow> settled \<times> state" where
  "onTestResults m allRunOptions k n r s =
     (let isLastRun = (int k = int n - 1)
      in case rerun_part m allRunOptions k isLastRun r (update_totals r s) of
           (Some x, s1) \<Rightarrow> (x, s1)
         | (None, s1) \<Rightarrow>
             (case status_part m r s1 of
                (Some x, s2) \<Rightarrow> (x, s2)
              | (None, s2) \<Rightarrow> verdict_part m k n isLastRun r s2))"

subsection \<open>The attempts in sequence: \<open>Bluebird.mapSeries\<close> (lines 96-158)\<close>

text \<open>
  \<open>mapSeries\<close> calls the mapper on the elements in order, each call after the promise
  of the one before has resolved, and rejects at the first rejection without calling
  the mapper again. \<open>cypress.run\<close> is the external test runner: it is given the attempt
  index, the store and the options object, and resolves to results or rejects.
\<close>

type_synonym runner = "nat \<Rightarrow> heap \<Rightarrow> addr \<Rightarrow> string + testResults"

function mapSeries :: "mode \<Rightarrow> runner \<Rightarrow> addr list \<Rightarrow> nat \<Rightarrow> state \<Rightarrow> settled \<times> state" where
  "mapSeries m cypress_run allRunOptions k s =
     (if k < length allRunOptions then
        (let n = length allRunOptions;
             runOptions = allRunOptions ! k;
             s1 = log (''***** '' @ name @ '' '' @ of_line k n @ '' *****'') s;
             res = cypress_run k (heap s1) runOptions;
             s2 = s1\<lparr>calls := calls s1 @
                    [\<lparr>call_k = k, call_options = heap s1 ! runOptions, call_result = res\<rparr>]\<rparr>
         in case res of
              Inl e \<Rightarrow> (Rejected e, s2)
            | Inr r \<Rightarrow>
                (case onTestResults m allRunOptions k n r s2 of
                   (Rejected e, s3) \<Rightarrow> (Rejected e, s3)
                 | (Resolved, s3) \<Rightarrow> mapSeries m cypress_run allRunOptions (Suc k) s3))
      else (Resolved, s))"
  by pat_completeness auto
termination
  by (relation "measure (\<lambda>(m, cypress_run, allRunOptions, k, s). length allRunOptions - k)") auto

declare mapSeries.simps [simp del]

subsection \<open>The summary (lines 159-186) and the rejection handler (lines 187-192)\<close>

definition resultSummary :: "state \<Rightarrow> string" where
  "resultSummary s =
     join [CHR 0x0A]
       [''***** Repeat Run Summary *****'',
        ''Total Tests with repeat: '' @ show_int (totalTests s),
        ''Total Passed: '' @ show_int (totalPassed s),
        ''Total Failed: '' @ show_int (totalFailed s),
        ''Total Skipped: '' @ show_int (totalSkipped s),
        ''*****************************'']"

text \<open>\<open>writeFileSync\<close> is the file system: given the contents it returns the message
  of the error it throws, if it throws.\<close>

definition finally_handler ::
  "mode \<Rightarrow> string \<Rightarrow> (string \<Rightarrow> string option) \<Rightarrow> state \<Rightarrow> state" where
  "finally_handler m summaryFilePath writeFileSync s =
     (let s1 = log ''Entering final result summary block...'' s;
          s2 = log (resultSummary s1) s1;
          s3 = log ''Writing result summary to file...'' s2;
          s4 = s3\<lparr>writes := writes s3 @ [resultSummary s3]\<rparr>;
          s5 = (case writeFileSync (resultSummary s3) of
                  None \<Rightarrow> log (''Result summary written successfully at: '' @ summaryFilePath) s4
                | Some msg \<Rightarrow> error (''Error writing result summary to file: '' @ msg) s4)
      in if anyTestFailed s5 then
           log ''Exiting with failure due to test failures.''
             (error ''***** Some tests failed during the run(s) *****'' s5)
         else
           log (''***** finished '' @ show_int (repeatNtimes m) @ '' run(s) successfully *****'') s5)"

definition catch_handler :: "mode \<Rightarrow> string \<Rightarrow> state \<Rightarrow> state" where
  "catch_handler m e s =
     (let s1 = error (''Error: '' @ e) s
      in if \<not> forceContinue m then log ''Exiting with failure due to an error.'' s1 else s1)"

subsection \<open>The script\<close>

definition banner :: "mode \<Rightarrow> state \<Rightarrow> state" where
  "banner m s =
     (let s1 = log (name @ '' will repeat Cypress command '' @ show_int (repeatNtimes m) @ '' time(s)'') s;
          s2 = (if untilPasses m then log (name @ '' but only until it passes'') s1 else s1);
          s3 = (if rerunFailedOnly m then log (name @ '' it only reruns specs which have failed'') s2 else s2)
      in if forceContinue m then log (name @ '' will force continue through all iterations'') s3 else s3)"

definition init :: state where
  "init = \<lparr> heap = [], anyTestFailed = False, totalTests = 0, totalPassed = 0, totalFailed = 0,
            totalSkipped = 0, console = [], calls = [], writes = [] \<rparr>"

text \<open>
  The promise chain of lines 70-192: \<open>parseArguments().then(build).then(mapSeries)\<close>,
  which settles in some state, then the \<open>finally\<close> handler, then the \<open>catch\<close> handler if
  the chain rejected. \<open>parseRunArguments\<close> is Cypress's parser: it resolves to an
  options object in a store, or rejects.
\<close>

definition chain ::
  "mode \<Rightarrow> (string list \<Rightarrow> string + (heap \<times> addr)) \<Rightarrow> runner \<Rightarrow> string list \<Rightarrow> state
     \<Rightarrow> settled \<times> state" where
  "chain m parseRunArguments cypress_run rest s =
     (case parseRunArguments (cliArgs_of rest) of
        Inl e \<Rightarrow> (Rejected e, s)
      | Inr (h, options) \<Rightarrow>
          (case build m options 0 [] h of
             Inl e \<Rightarrow> (Rejected e, s\<lparr>heap := h\<rparr>)
           | Inr (allRunOptions, h1) \<Rightarrow> mapSeries m cypress_run allRunOptions 0 (s\<lparr>heap := h1\<rparr>)))"

definition main ::
  "cli_args \<Rightarrow> (string list \<Rightarrow> string + (heap \<times> addr)) \<Rightarrow> runner \<Rightarrow> string
     \<Rightarrow> (string \<Rightarrow> string option) \<Rightarrow> state" where
  "main args parseRunArguments cypress_run summaryFilePath writeFileSync =
     (let m = mode_of args
      in case chain m parseRunArguments cypress_run (arg_rest args) (banner m init) of
           (Resolved, s) \<Rightarrow> finally_handler m summaryFilePath writeFileSync s
         | (Rejected e, s) \<Rightarrow> catch_handler m e (finally_handler m summaryFilePath writeFileSync s))"

section \<open>Properties\<close>

subsection \<open>Notions used in the statements\<close>

definition totals :: "state \<Rightarrow> int \<times> int \<times> int \<times> int" where
  "totals s = (totalTests s, totalPassed s, totalFailed s, totalSkipped s)"




text \<open>What \<open>mapSeries\<close> does with the element at \<open>k\<close>: the state in which the handler
  is called.\<close>

definition started :: "runner \<Rightarrow> addr list \<Rightarrow> nat \<Rightarrow> state \<Rightarrow> state" where
  "started run as k s =
     (log (''***** '' @ name @ '' '' @ of_line k (length as) @ '' *****'') s)
       \<lparr>calls := calls s @
          [\<lparr>call_k = k, call_options = heap s ! (as ! k), call_result = run k (heap s) (as ! k)\<rparr>]\<rparr>"

subsection \<open>Concrete runs\<close>

text \<open>The options object of a run of the repository's own spec file, and what the
  runner reports when its three tests pass, when one of them fails, and when the
  results carry no counts at all.\<close>

definition demo_options :: "string list \<Rightarrow> string + (heap \<times> addr)" where
  "demo_options cliArgs = Inr ([[(''spec'', VStr ''cypress/e2e/spec.cy.js'')]], 0)"

definition passing :: testResults where
  "passing =
     \<lparr> status = ''finished'', failures = None, message = None,
       r_totalTests = Some 3, r_totalPassed = Some 3, r_totalFailed = Some 0, r_totalSkipped = Some 0,
       runs = Some [\<lparr> stats_failures = 0, spec_relative = ''cypress/e2e/spec.cy.js'' \<rparr>] \<rparr>"

definition failing :: testResults where
  "failing =
     \<lparr> status = ''finished'', failures = None, message = None,
       r_totalTests = Some 3, r_totalPassed = Some 2, r_totalFailed = Some 1, r_totalSkipped = Some 0,
       runs = Some [\<lparr> stats_failures = 1, spec_relative = ''cypress/e2e/spec.cy.js'' \<rparr>] \<rparr>"

definition no_counts :: testResults where
  "no_counts =
     \<lparr> status = ''finished'', failures = None, message = None,
       r_totalTests = None, r_totalPassed = None, r_totalFailed = None, r_totalSkipped = None,
       runs = None \<rparr>"

definition always_passing :: runner where
  "always_passing k h runOptions = Inr passing"

definition always_failing :: runner where
  "always_failing k h runOptions = Inr failing"


definition write_ok :: "string \<Rightarrow> string option" where
  "write_ok contents = None"

definition twice :: cli_args where
  "twice = \<lparr> arg_n = Some 2, arg_until_passes = None, arg_rerun_failed_only = None,
             arg_force = None, arg_rest = [''run''] \<rparr>"

definition twice_until_passes :: cli_args where
  "twice_until_passes = twice \<lparr> arg_until_passes := Some True \<rparr>"

definition twice_rerun_failed_only :: cli_args where
  "twice_rerun_failed_only = twice \<lparr> arg_rerun_failed_only := Some True \<rparr>"

text \<open>The store after the options of two attempts have been built, and the state of a
  script that has done nothing else.\<close>

definition demo_state :: state where
  "demo_state = init \<lparr> heap :=
       [[(''spec'', VStr ''cypress/e2e/spec.cy.js'')],
        [(''spec'', VStr ''cypress/e2e/spec.cy.js''),
         (''env'', VStr ''cypress_repeat_n=2,cypress_repeat_k=1'')],
        [(''spec'', VStr ''cypress/e2e/spec.cy.js''),
         (''env'', VStr ''cypress_repeat_n=2,cypress_repeat_k=2'')]] \<rparr>"

text \<open>Results with three spec files of which the first and the third fail, results whose
  only failed file has an empty name, and a store in which the options select the spec
  files by a pattern.\<close>

definition two_of_three_failing :: testResults where
  "two_of_three_failing =
     \<lparr> status = ''finished'', failures = None, message = None,
       r_totalTests = Some 9, r_totalPassed = Some 6, r_totalFailed = Some 3, r_totalSkipped = Some 0,
       runs = Some [\<lparr> stats_failures = 1, spec_relative = ''cypress/e2e/a.cy.js'' \<rparr>,
                    \<lparr> stats_failures = 0, spec_relative = ''cypress/e2e/b.cy.js'' \<rparr>,
                    \<lparr> stats_failures = 2, spec_relative = ''cypress/e2e/c.cy.js'' \<rparr>] \<rparr>"

definition nameless_failing :: testResults where
  "nameless_failing =
     \<lparr> status = ''finished'', failures = None, message = None,
       r_totalTests = Some 3, r_totalPassed = Some 2, r_totalFailed = Some 1, r_totalSkipped = Some 0,
       runs = Some [\<lparr> stats_failures = 1, spec_relative = '''' \<rparr>] \<rparr>"

definition always_two_of_three :: runner where
  "always_two_of_three k h runOptions = Inr two_of_three_failing"

definition always_nameless :: runner where
  "always_nameless k h runOptions = Inr nameless_failing"

definition glob_state :: state where
  "glob_state = init \<lparr> heap :=
       [[(''spec'', VStr ''cypress/e2e/*.cy.js'')],
        [(''spec'', VStr ''cypress/e2e/*.cy.js''),
         (''env'', VStr ''cypress_repeat_n=2,cypress_repeat_k=1'')],
        [(''spec'', VStr ''cypress/e2e/*.cy.js''),
         (''env'', VStr ''cypress_repeat_n=2,cypress_repeat_k=2'')]] \<rparr>"

subsection \<open>Evaluation\<close>

lemma show_nat_digit: "n < 10 \<Longrightarrow> show_nat n = [digit_char n]"
  by (simp add: show_nat.simps [of n])

lemma digits:
  "digit_char 0 = CHR ''0''" "digit_char (Suc 0) = CHR ''1''"
  "digit_char 2 = CHR ''2''" "digit_char (Suc (Suc 0)) = CHR ''2''"
  "digit_char 3 = CHR ''3''" "digit_char (Suc (Suc (Suc 0))) = CHR ''3''"
  by code_simp+

lemmas build_defs = clone_def set_env_def set_group_def set_force_def get_prop_def set_prop_def
  envVariables_def show_int_def show_nat_digit digits

lemmas attempt_defs = Let_def log_def error_def onTestResults_def rerun_part_def status_part_def
  verdict_part_def update_totals_def or0_def truthy_num_def failedSpecs_of_def of_line_def name_def
  show_int_def show_nat_digit digits get_prop_def set_prop_def

lemmas end_defs = finally_handler_def catch_handler_def Let_def log_def error_def show_int_def
  show_nat_digit digits

lemmas args_defs = twice_def twice_until_passes_def twice_rerun_failed_only_def mode_of_def
  demo_options_def

lemma demo_build:
  "repeatNtimes m = 2 \<Longrightarrow> \<not> forceContinue m \<Longrightarrow>
   build m 0 0 [] [[(''spec'', VStr ''cypress/e2e/spec.cy.js'')]] =
     Inr ([1, 2],
       [[(''spec'', VStr ''cypress/e2e/spec.cy.js'')],
        [(''spec'', VStr ''cypress/e2e/spec.cy.js''),
         (''env'', VStr ''cypress_repeat_n=2,cypress_repeat_k=1'')],
        [(''spec'', VStr ''cypress/e2e/spec.cy.js''),
         (''env'', VStr ''cypress_repeat_n=2,cypress_repeat_k=2'')]])"
  by (simp add: build.simps build_defs)

subsection \<open>What the handlers leave unchanged\<close>

lemma log_sel [simp]:
  "heap (log x s) = heap s" "anyTestFailed (log x s) = anyTestFailed s"
  "totalTests (log x s) = totalTests s" "totalPassed (log x s) = totalPassed s"
  "totalFailed (log x s) = totalFailed s" "totalSkipped (log x s) = totalSkipped s"
  "calls (log x s) = calls s" "writes (log x s) = writes s"
  "console (log x s) = console s @ [(Stdout, x)]"
  by (simp_all add: log_def)

lemma error_sel [simp]:
  "heap (error x s) = heap s" "anyTestFailed (error x s) = anyTestFailed s"
  "totalTests (error x s) = totalTests s" "totalPassed (error x s) = totalPassed s"
  "totalFailed (error x s) = totalFailed s" "totalSkipped (error x s) = totalSkipped s"
  "calls (error x s) = calls s" "writes (error x s) = writes s"
  "console (error x s) = console s @ [(Stderr, x)]"
  by (simp_all add: error_def)

lemma rerun_part_keeps:
  "totals (snd (rerun_part m as k l r s)) = totals s"
  "calls (snd (rerun_part m as k l r s)) = calls s"
  "writes (snd (rerun_part m as k l r s)) = writes s"
  "anyTestFailed (snd (rerun_part m as k l r s)) = anyTestFailed s"
  by (simp_all add: rerun_part_def totals_def Let_def split: option.splits)

lemma status_part_keeps:
  "totals (snd (status_part m r s)) = totals s"
  "calls (snd (status_part m r s)) = calls s"
  "writes (snd (status_part m r s)) = writes s"
  "heap (snd (status_part m r s)) = heap s"
  by (simp_all add: status_part_def totals_def Let_def)

lemma verdict_part_keeps:
  "totals (snd (verdict_part m k n l r s)) = totals s"
  "calls (snd (verdict_part m k n l r s)) = calls s"
  "writes (snd (verdict_part m k n l r s)) = writes s"
  "heap (snd (verdict_part m k n l r s)) = heap s"
  "anyTestFailed (snd (verdict_part m k n l r s)) = anyTestFailed s"
  by (simp_all add: verdict_part_def totals_def Let_def)

text \<open>The three parts of the handler, named.\<close>

lemma onTestResults_parts:
  obtains x s1 y s2 where
    "rerun_part m as k (int k = int n - 1) r (update_totals r s) = (x, s1)"
    "status_part m r s1 = (y, s2)"
    "snd (onTestResults m as k n r s) = s1 \<or> snd (onTestResults m as k n r s) = s2
       \<or> snd (onTestResults m as k n r s) = snd (verdict_part m k n (int k = int n - 1) r s2)"
proof -
  obtain x s1 where a: "rerun_part m as k (int k = int n - 1) r (update_totals r s) = (x, s1)"
    by (cases "rerun_part m as k (int k = int n - 1) r (update_totals r s)")
  obtain y s2 where b: "status_part m r s1 = (y, s2)"
    by (cases "status_part m r s1")
  have "snd (onTestResults m as k n r s) = s1 \<or> snd (onTestResults m as k n r s) = s2
       \<or> snd (onTestResults m as k n r s) = snd (verdict_part m k n (int k = int n - 1) r s2)"
    using a b by (simp add: onTestResults_def split: option.splits)
  with a b that show thesis by blast
qed

lemma onTestResults_totals:
  "totals (snd (onTestResults m as k n r s)) = totals (update_totals r s)"
proof -
  obtain x s1 y s2 where a: "rerun_part m as k (int k = int n - 1) r (update_totals r s) = (x, s1)"
    and b: "status_part m r s1 = (y, s2)"
    and c: "snd (onTestResults m as k n r s) = s1 \<or> snd (onTestResults m as k n r s) = s2
       \<or> snd (onTestResults m as k n r s) = snd (verdict_part m k n (int k = int n - 1) r s2)"
    by (rule onTestResults_parts)
  have 1: "totals s1 = totals (update_totals r s)" by (metis a rerun_part_keeps(1) snd_conv)
  have 2: "totals s2 = totals s1" by (metis b status_part_keeps(1) snd_conv)
  show ?thesis using c 1 2 by (auto simp: verdict_part_keeps)
qed

lemma onTestResults_calls: "calls (snd (onTestResults m as k n r s)) = calls s"
proof -
  obtain x s1 y s2 where a: "rerun_part m as k (int k = int n - 1) r (update_totals r s) = (x, s1)"
    and b: "status_part m r s1 = (y, s2)"
    and c: "snd (onTestResults m as k n r s) = s1 \<or> snd (onTestResults m as k n r s) = s2
       \<or> snd (onTestResults m as k n r s) = snd (verdict_part m k n (int k = int n - 1) r s2)"
    by (rule onTestResults_parts)
  have 1: "calls s1 = calls (update_totals r s)" by (metis a rerun_part_keeps(2) snd_conv)
  have 2: "calls s2 = calls s1" by (metis b status_part_keeps(2) snd_conv)
  show ?thesis using c 1 2 by (auto simp: verdict_part_keeps update_totals_def)
qed

lemma onTestResults_writes: "writes (snd (onTestResults m as k n r s)) = writes s"
proof -
  obtain x s1 y s2 where a: "rerun_part m as k (int k = int n - 1) r (update_totals r s) = (x, s1)"
    and b: "status_part m r s1 = (y, s2)"
    and c: "snd (onTestResults m as k n r s) = s1 \<or> snd (onTestResults m as k n r s) = s2
       \<or> snd (onTestResults m as k n r s) = snd (verdict_part m k n (int k = int n - 1) r s2)"
    by (rule onTestResults_parts)
  have 1: "writes s1 = writes (update_totals r s)" by (metis a rerun_part_keeps(3) snd_conv)
  have 2: "writes s2 = writes s1" by (metis b status_part_keeps(3) snd_conv)
  show ?thesis using c 1 2 by (auto simp: verdict_part_keeps update_totals_def)
qed

lemma onTestResults_counts:
  "totalTests (snd (onTestResults m as k n r s)) = totalTests s + or0 (r_totalTests r)"
  "totalPassed (snd (onTestResults m as k n r s)) = totalPassed s + or0 (r_totalPassed r)"
  "totalFailed (snd (onTestResults m as k n r s)) = totalFailed s + or0 (r_totalFailed r)"
  "totalSkipped (snd (onTestResults m as k n r s)) = totalSkipped s + or0 (r_totalSkipped r)"
  using onTestResults_totals [of m as k n r s]
  by (simp_all add: totals_def update_totals_def)

subsection \<open>The counters follow the completed attempts\<close>





lemma onTestResults_writesD:
  "onTestResults m as k n r s = (x, s') \<Longrightarrow> writes s' = writes s"
  using onTestResults_writes [of m as k n r s] by simp

lemma mapSeries_writes: "writes (snd (mapSeries m run as k s)) = writes s"
proof (induction m run as k s rule: mapSeries.induct)
  case (1 m run as k s)
  show ?case
    using 1
    by (subst mapSeries.simps)
      (auto simp: Let_def split: sum.splits prod.splits settled.splits dest!: onTestResults_writesD)
qed

subsection \<open>The handlers at the end of the chain\<close>

lemma resultSummary_cong:
  "totals s = totals s' \<Longrightarrow> resultSummary s = resultSummary s'"
  by (simp add: resultSummary_def totals_def)

lemma finally_handler_keeps:
  "totals (finally_handler m p w s) = totals s"
  "calls (finally_handler m p w s) = calls s"
  "writes (finally_handler m p w s) = writes s @ [resultSummary s]"
  "anyTestFailed (finally_handler m p w s) = anyTestFailed s"
  by (simp_all add: finally_handler_def Let_def totals_def resultSummary_def split: option.splits)

lemma catch_handler_keeps:
  "totals (catch_handler m e s) = totals s"
  "calls (catch_handler m e s) = calls s"
  "writes (catch_handler m e s) = writes s"
  "anyTestFailed (catch_handler m e s) = anyTestFailed s"
  by (simp_all add: catch_handler_def Let_def totals_def)

lemma banner_keeps:
  "totals (banner m s) = totals s"
  "calls (banner m s) = calls s"
  "writes (banner m s) = writes s"
  "heap (banner m s) = heap s"
  "anyTestFailed (banner m s) = anyTestFailed s"
  by (simp_all add: banner_def Let_def totals_def)

lemma chain_writes: "writes (snd (chain m p run rest s)) = writes s"
  by (simp add: chain_def mapSeries_writes split: sum.splits prod.splits)



text \<open>The script is the chain, then the \<open>finally\<close> handler, then perhaps the
  \<open>catch\<close> handler.\<close>

lemma main_shape:
  "main args p run path w =
     finally_handler (mode_of args) path w
       (snd (chain (mode_of args) p run (arg_rest args) (banner (mode_of args) init)))
   \<or> (\<exists>e. main args p run path w =
          catch_handler (mode_of args) e (finally_handler (mode_of args) path w
            (snd (chain (mode_of args) p run (arg_rest args) (banner (mode_of args) init)))))"
proof (cases "chain (mode_of args) p run (arg_rest args) (banner (mode_of args) init)")
  case (Pair x s)
  then show ?thesis by (cases x) (auto simp: main_def Let_def)
qed

lemma main_writes: "writes (main args p run path w) = [resultSummary (main args p run path w)]"
proof -
  let ?m = "mode_of args"
  let ?s = "snd (chain ?m p run (arg_rest args) (banner ?m init))"
  have "writes ?s = []"
    using chain_writes [of ?m p run "arg_rest args" "banner ?m init"]
    by (simp add: banner_keeps init_def)
  then show ?thesis
    using main_shape [of args p run path w]
    by (auto simp: finally_handler_keeps catch_handler_keeps intro!: resultSummary_cong)
qed


subsection \<open>The lines of the summary\<close>

lemma digit_not_nl: "d < 10 \<Longrightarrow> digit_char d \<noteq> CHR 0x0A"
proof
  assume d: "d < 10" and "digit_char d = CHR 0x0A"
  then have "(of_char (char_of (48 + d)) :: nat) = of_char (CHR 0x0A)"
    by (simp add: digit_char_def)
  with d show False by simp
qed

lemma show_nat_no_nl: "CHR 0x0A \<notin> set (show_nat n)"
proof (induction n rule: show_nat.induct)
  case (1 n)
  show ?case
  proof (cases "n < 10")
    case True
    then show ?thesis using digit_not_nl [of n] by (simp add: show_nat.simps [of n])
  next
    case False
    then show ?thesis using 1 digit_not_nl [of "n mod 10"]
      by (simp add: show_nat.simps [of n])
  qed
qed

lemma show_int_no_nl: "CHR 0x0A \<notin> set (show_int i)"
  by (simp add: show_int_def show_nat_no_nl)

lemma split_lines_append:
  "CHR 0x0A \<notin> set l \<Longrightarrow> split_lines (l @ CHR 0x0A # rest) = l # split_lines rest"
  by (induction l) auto

lemma split_lines_single: "CHR 0x0A \<notin> set l \<Longrightarrow> split_lines l = [l]"
  by (induction l) auto

lemma split_lines_join:
  "ls \<noteq> [] \<Longrightarrow> (\<forall>l\<in>set ls. CHR 0x0A \<notin> set l) \<Longrightarrow> split_lines (join [CHR 0x0A] ls) = ls"
proof (induction ls rule: induct_list012)
  case 1
  then show ?case by simp
next
  case (2 x)
  then show ?case by (simp add: split_lines_single)
next
  case (3 x y zs)
  then show ?case using split_lines_append [of x "join [CHR 0x0A] (y # zs)"] by simp
qed

lemma resultSummary_lines:
  "split_lines (resultSummary s) =
     [''***** Repeat Run Summary *****'',
      ''Total Tests with repeat: '' @ show_int (totalTests s),
      ''Total Passed: '' @ show_int (totalPassed s),
      ''Total Failed: '' @ show_int (totalFailed s),
      ''Total Skipped: '' @ show_int (totalSkipped s),
      ''*****************************'']"
  unfolding resultSummary_def
  by (rule split_lines_join) (simp_all add: show_int_no_nl)

subsection \<open>What the script prints at the end\<close>

lemmas mapSeries_unfold =
  mapSeries.simps [of _ _ _ 0] mapSeries.simps [of _ _ _ "Suc 0"] mapSeries.simps [of _ _ _ "Suc (Suc 0)"]

lemma finally_handler_console:
  "console (finally_handler m p w s) =
     console s @
     [(Stdout, ''Entering final result summary block...''),
      (Stdout, resultSummary s),
      (Stdout, ''Writing result summary to file...''),
      (case w (resultSummary s) of
         None \<Rightarrow> (Stdout, ''Result summary written successfully at: '' @ p)
       | Some msg \<Rightarrow> (Stderr, ''Error writing result summary to file: '' @ msg))] @
     (if anyTestFailed s then
        [(Stderr, ''***** Some tests failed during the run(s) *****''),
         (Stdout, ''Exiting with failure due to test failures.'')]
      else [(Stdout, ''***** finished '' @ show_int (repeatNtimes m) @ '' run(s) successfully *****'')])"
  by (simp add: finally_handler_def Let_def resultSummary_def split: option.splits)

lemma catch_handler_console:
  "console (catch_handler m e s) =
     console s @ (Stderr, ''Error: '' @ e) #
       (if \<not> forceContinue m then [(Stdout, ''Exiting with failure due to an error.'')] else [])"
  by (simp add: catch_handler_def Let_def)

lemma main_rejected:
  "chain (mode_of args) p run (arg_rest args) (banner (mode_of args) init) = (Rejected e, s) \<Longrightarrow>
   main args p run path w = catch_handler (mode_of args) e (finally_handler (mode_of args) path w s)"
  by (simp add: main_def Let_def)

lemma main_resolved:
  "chain (mode_of args) p run (arg_rest args) (banner (mode_of args) init) = (Resolved, s) \<Longrightarrow>
   main args p run path w = finally_handler (mode_of args) path w s"
  by (simp add: main_def Let_def)

lemma resultSummary_totals:
  "totals s = (a, b, c, d) \<Longrightarrow>
   resultSummary s =
     join [CHR 0x0A]
       [''***** Repeat Run Summary *****'', ''Total Tests with repeat: '' @ show_int a,
        ''Total Passed: '' @ show_int b, ''Total Failed: '' @ show_int c,
        ''Total Skipped: '' @ show_int d, ''*****************************'']"
  by (simp add: totals_def resultSummary_def)

subsection \<open>One step of \<open>mapSeries\<close>\<close>

lemma onTestResults_callsD:
  "onTestResults m as k n r s = (x, s') \<Longrightarrow> calls s' = calls s"
  using onTestResults_calls [of m as k n r s] by simp

lemma started_sel [simp]:
  "heap (started run as k s) = heap s"
  "totals (started run as k s) = totals s"
  "writes (started run as k s) = writes s"
  "anyTestFailed (started run as k s) = anyTestFailed s"
  "calls (started run as k s) = calls s @
     [\<lparr>call_k = k, call_options = heap s ! (as ! k), call_result = run k (heap s) (as ! k)\<rparr>]"
  by (simp_all add: started_def totals_def)

lemma mapSeries_end: "\<not> k < length as \<Longrightarrow> mapSeries m run as k s = (Resolved, s)"
  by (simp add: mapSeries.simps [of m run as k s])

lemma mapSeries_crash:
  "k < length as \<Longrightarrow> run k (heap s) (as ! k) = Inl e \<Longrightarrow>
   mapSeries m run as k s = (Rejected e, started run as k s)"
  by (simp add: mapSeries.simps [of m run as k s] Let_def started_def)

lemma mapSeries_reject:
  "k < length as \<Longrightarrow> run k (heap s) (as ! k) = Inr r \<Longrightarrow>
   onTestResults m as k (length as) r (started run as k s) = (Rejected e, s') \<Longrightarrow>
   mapSeries m run as k s = (Rejected e, s')"
  by (simp add: mapSeries.simps [of m run as k s] Let_def started_def)

lemma mapSeries_next:
  "k < length as \<Longrightarrow> run k (heap s) (as ! k) = Inr r \<Longrightarrow>
   onTestResults m as k (length as) r (started run as k s) = (Resolved, s') \<Longrightarrow>
   mapSeries m run as k s = mapSeries m run as (Suc k) s'"
  by (simp add: mapSeries.simps [of m run as k s] Let_def started_def)

lemma mapSeries_calls_prefix:
  "\<exists>cs. calls (snd (mapSeries m run as k s)) = calls s @ cs"
proof (induction m run as k s rule: mapSeries.induct)
  case (1 m run as k s)
  show ?case
  proof (cases "k < length as")
    case False
    then show ?thesis by (simp add: mapSeries_end)
  next
    case True
    show ?thesis
    proof (cases "run k (heap s) (as ! k)")
      case (Inl e)
      then show ?thesis using True by (simp add: mapSeries_crash)
    next
      case (Inr r)
      obtain x s' where o: "onTestResults m as k (length as) r (started run as k s) = (x, s')"
        by (cases "onTestResults m as k (length as) r (started run as k s)")
      have c: "calls s' = calls (started run as k s)" by (rule onTestResults_callsD [OF o])
      show ?thesis
      proof (cases x)
        case (Rejected e)
        then show ?thesis using True Inr o c by (simp add: mapSeries_reject)
      next
        case Resolved
        have "\<exists>cs. calls (snd (mapSeries m run as (Suc k) s')) = calls s' @ cs"
          using 1 [OF True refl refl refl refl refl, of r Resolved s'] Inr o Resolved
          by (simp add: started_def)
        then show ?thesis using True Inr o c Resolved by (auto simp: mapSeries_next)
      qed
    qed
  qed
qed

lemma mapSeries_first_call:
  assumes "k < length as"
  shows "\<exists>cs. calls (snd (mapSeries m run as k s)) =
           calls s @ \<lparr>call_k = k, call_options = heap s ! (as ! k),
                       call_result = run k (heap s) (as ! k)\<rparr> # cs"
proof (cases "run k (heap s) (as ! k)")
  case (Inl e)
  then show ?thesis using assms by (simp add: mapSeries_crash)
next
  case (Inr r)
  obtain x s' where o: "onTestResults m as k (length as) r (started run as k s) = (x, s')"
    by (cases "onTestResults m as k (length as) r (started run as k s)")
  have c: "calls s' = calls (started run as k s)" by (rule onTestResults_callsD [OF o])
  show ?thesis
  proof (cases x)
    case (Rejected e)
    then show ?thesis using assms Inr o c by (simp add: mapSeries_reject)
  next
    case Resolved
    obtain cs where "calls (snd (mapSeries m run as (Suc k) s')) = calls s' @ cs"
      using mapSeries_calls_prefix by blast
    then show ?thesis using assms Inr o c Resolved by (simp add: mapSeries_next)
  qed
qed

subsection \<open>The options of the next attempt\<close>

lemma join_empty_iff: "sep \<noteq> [] \<Longrightarrow> join sep xs = [] \<longleftrightarrow> xs = [] \<or> xs = [[]]"
  by (induction sep xs rule: join.induct) auto

lemma failedSpecs_of_none: "\<forall>x\<in>set rs. stats_failures x = 0 \<Longrightarrow> failedSpecs_of rs = []"
proof -
  assume "\<forall>x\<in>set rs. stats_failures x = 0"
  then have "filter (\<lambda>run. stats_failures run \<noteq> 0) rs = []" by (induction rs) auto
  then show ?thesis by (simp add: failedSpecs_of_def)
qed

lemma map_of_assign: "map_of (assign ps key v) key' = (if key' = key then Some v else map_of ps key')"
  by (induction ps key v rule: assign.induct) auto

lemma get_prop_set_prop:
  "get_prop (set_prop h a key v) a' key' =
     (if a' = a \<and> key' = key \<and> a < length h then v else get_prop h a' key')"
  by (auto simp: get_prop_def set_prop_def map_of_assign nth_list_update)

lemma length_set_prop [simp]: "length (set_prop h a key v) = length h"
  by (simp add: set_prop_def)

lemma onTestResults_heap:
  "heap (snd (onTestResults m as k n r s)) =
     heap (snd (rerun_part m as k (int k = int n - 1) r (update_totals r s)))"
proof -
  obtain x s1 y s2 where a: "rerun_part m as k (int k = int n - 1) r (update_totals r s) = (x, s1)"
    and b: "status_part m r s1 = (y, s2)"
    and c: "snd (onTestResults m as k n r s) = s1 \<or> snd (onTestResults m as k n r s) = s2
       \<or> snd (onTestResults m as k n r s) = snd (verdict_part m k n (int k = int n - 1) r s2)"
    by (rule onTestResults_parts)
  have 2: "heap s2 = heap s1" by (metis b status_part_keeps(4) snd_conv)
  show ?thesis using c 2 a by (auto simp: verdict_part_keeps)
qed

lemma heap_update_totals [simp]: "heap (update_totals r s) = heap s"
  by (simp add: update_totals_def)

lemma rerun_part_patch:
  assumes "rerunFailedOnly m" "\<not> l" "Suc k < length as" "runs r = Some rs" "failedSpecs_of rs \<noteq> []"
  shows "heap (snd (rerun_part m as k l r s)) =
           set_prop (heap s) (as ! Suc k) ''spec'' (VStr (failedSpecs_of rs))"
  using assms by (simp add: rerun_part_def Let_def)

lemma rerun_part_no_patch:
  assumes "rerunFailedOnly m" "\<not> l" "\<not> forceContinue m" "runs r = Some rs" "failedSpecs_of rs = []"
  shows "rerun_part m as k l r s = (Some Resolved, log (name @ '' there were no failed specs'') s)"
  using assms by (simp add: rerun_part_def Let_def)

lemma onTestResults_no_failed_specs:
  assumes "rerunFailedOnly m" "\<not> forceContinue m" "Suc k < n" "runs r = Some rs"
    "\<forall>x\<in>set rs. stats_failures x = 0"
  shows "onTestResults m as k n r s =
           (Resolved, log (name @ '' there were no failed specs'') (update_totals r s))"
proof -
  have "\<not> (int k = int n - 1)" using assms(3) by simp
  then show ?thesis
    using rerun_part_no_patch [OF assms(1) _ assms(2) assms(4) failedSpecs_of_none [OF assms(5)]]
    by (simp add: onTestResults_def)
qed

section \<open>The claims\<close>

subsection \<open>C1: until-passes\<close>

lemma until_passes_chain:
  "\<exists>s. chain (mode_of twice_until_passes) demo_options always_passing (arg_rest twice_until_passes)
          (banner (mode_of twice_until_passes) init)
        = (Rejected ''No failures detected, exiting with success.'', s)
     \<and> map call_k (calls s) = [0] \<and> \<not> anyTestFailed s \<and> totals s = (3, 3, 0, 0)
     \<and> console s =
         [(Stdout, ''cypress-repeat-pro: will repeat Cypress command 2 time(s)''),
          (Stdout, ''cypress-repeat-pro: but only until it passes''),
          (Stdout, ''***** cypress-repeat-pro: 1 of 2 *****''),
          (Stdout, ''cypress-repeat-pro: successfully passed on run 1 of 2'')]"
  unfolding chain_def
  apply (simp add: args_defs demo_build cliArgs_of_def)
  apply (simp add: mapSeries_unfold attempt_defs always_passing_def passing_def banner_def init_def totals_def)
  done

text \<open>
  C1 says that with \<open>untilPasses\<close> an attempt with zero failed tests stops the
  orchestration at once and that this early exit is not reported as a failure. The code
  stops, but it stops by rejecting the promise, and the \<open>catch\<close> handler reports every
  rejection as a failure when \<open>--force\<close> is absent. With \<open>-n 2 --until-passes\<close> and a
  first attempt that passes, only attempt 1 runs, and the script prints the error
  ``No failures detected, exiting with success.'' followed by
  ``Exiting with failure due to an error.''
\<close>

theorem until_passes_pass_logged_as_failure:
  "map call_k (calls (main twice_until_passes demo_options always_passing ''cy-repeat-summary.txt'' write_ok)) = [0]
   \<and> console (main twice_until_passes demo_options always_passing ''cy-repeat-summary.txt'' write_ok) =
       [(Stdout, ''cypress-repeat-pro: will repeat Cypress command 2 time(s)''),
        (Stdout, ''cypress-repeat-pro: but only until it passes''),
        (Stdout, ''***** cypress-repeat-pro: 1 of 2 *****''),
        (Stdout, ''cypress-repeat-pro: successfully passed on run 1 of 2''),
        (Stdout, ''Entering final result summary block...''),
        (Stdout, join [CHR 0x0A]
           [''***** Repeat Run Summary *****'', ''Total Tests with repeat: 3'', ''Total Passed: 3'',
            ''Total Failed: 0'', ''Total Skipped: 0'', ''*****************************'']),
        (Stdout, ''Writing result summary to file...''),
        (Stdout, ''Result summary written successfully at: cy-repeat-summary.txt''),
        (Stdout, ''***** finished 2 run(s) successfully *****''),
        (Stderr, ''Error: No failures detected, exiting with success.''),
        (Stdout, ''Exiting with failure due to an error.'')]"
proof -
  obtain s where c: "chain (mode_of twice_until_passes) demo_options always_passing
        (arg_rest twice_until_passes) (banner (mode_of twice_until_passes) init)
        = (Rejected ''No failures detected, exiting with success.'', s)"
    and s: "map call_k (calls s) = [0]" "\<not> anyTestFailed s" "totals s = (3, 3, 0, 0)"
      "console s =
         [(Stdout, ''cypress-repeat-pro: will repeat Cypress command 2 time(s)''),
          (Stdout, ''cypress-repeat-pro: but only until it passes''),
          (Stdout, ''***** cypress-repeat-pro: 1 of 2 *****''),
          (Stdout, ''cypress-repeat-pro: successfully passed on run 1 of 2'')]"
    using until_passes_chain by (elim exE conjE) (rule that, assumption+)
  have m: "repeatNtimes (mode_of twice_until_passes) = 2" "\<not> forceContinue (mode_of twice_until_passes)"
    by (simp_all add: args_defs)
  have M: "main twice_until_passes demo_options always_passing ''cy-repeat-summary.txt'' write_ok
     = catch_handler (mode_of twice_until_passes) ''No failures detected, exiting with success.''
         (finally_handler (mode_of twice_until_passes) ''cy-repeat-summary.txt'' write_ok s)"
    by (rule main_rejected [OF c])
  have rs: "resultSummary s = join [CHR 0x0A]
           [''***** Repeat Run Summary *****'', ''Total Tests with repeat: 3'', ''Total Passed: 3'',
            ''Total Failed: 0'', ''Total Skipped: 0'', ''*****************************'']"
    by (simp add: resultSummary_totals [OF s(3)] show_int_def show_nat_digit digits)
  have 1: "calls (main twice_until_passes demo_options always_passing ''cy-repeat-summary.txt'' write_ok) = calls s"
    unfolding M by (simp only: catch_handler_keeps finally_handler_keeps)
  have 2: "console (main twice_until_passes demo_options always_passing ''cy-repeat-summary.txt'' write_ok) =
     console s @
     [(Stdout, ''Entering final result summary block...''),
      (Stdout, resultSummary s),
      (Stdout, ''Writing result summary to file...''),
      (Stdout, ''Result summary written successfully at: cy-repeat-summary.txt''),
      (Stdout, ''***** finished 2 run(s) successfully *****''),
      (Stderr, ''Error: No failures detected, exiting with success.''),
      (Stdout, ''Exiting with failure due to an error.'')]"
    unfolding M catch_handler_console finally_handler_console
    by (simp add: s(2) m write_ok_def show_int_def show_nat_digit digits)
  show ?thesis
    unfolding 1 2 rs s by simp
qed

subsection \<open>C2: a failed attempt in default mode\<close>

lemma default_failing_chain:
  "\<exists>s. chain (mode_of twice) demo_options always_failing (arg_rest twice) (banner (mode_of twice) init)
        = (Rejected ''Failures detected and conditions met'', s)
     \<and> map call_k (calls s) = [0] \<and> \<not> anyTestFailed s \<and> totals s = (3, 2, 1, 0)
     \<and> console s =
         [(Stdout, ''cypress-repeat-pro: will repeat Cypress command 2 time(s)''),
          (Stdout, ''***** cypress-repeat-pro: 1 of 2 *****''),
          (Stderr, ''cypress-repeat-pro: run 1 of 2 failed'')]"
  unfolding chain_def
  apply (simp add: args_defs demo_build cliArgs_of_def)
  apply (simp add: mapSeries_unfold attempt_defs always_failing_def failing_def banner_def init_def totals_def)
  done

text \<open>
  C2 says that in default mode an attempt with failed tests marks the failure-observed
  flag and, with \<open>--force\<close> absent, stops the orchestration with failure. The code stops
  (no further attempt runs) and the \<open>catch\<close> handler prints a failure, but the default
  branch (lines 146-153) never sets \<open>anyTestFailed\<close>: only the branch for a run that
  could not start (line 130) does. With \<open>-n 2\<close> and a first attempt with one failed test
  the flag is still false at the end and the summary block, which reads it, prints
  ``finished 2 run(s) successfully''.
\<close>

theorem default_failure_not_marked:
  "map call_k (calls (main twice demo_options always_failing ''cy-repeat-summary.txt'' write_ok)) = [0]
   \<and> anyTestFailed (main twice demo_options always_failing ''cy-repeat-summary.txt'' write_ok) = False
   \<and> console (main twice demo_options always_failing ''cy-repeat-summary.txt'' write_ok) =
       [(Stdout, ''cypress-repeat-pro: will repeat Cypress command 2 time(s)''),
        (Stdout, ''***** cypress-repeat-pro: 1 of 2 *****''),
        (Stderr, ''cypress-repeat-pro: run 1 of 2 failed''),
        (Stdout, ''Entering final result summary block...''),
        (Stdout, join [CHR 0x0A]
           [''***** Repeat Run Summary *****'', ''Total Tests with repeat: 3'', ''Total Passed: 2'',
            ''Total Failed: 1'', ''Total Skipped: 0'', ''*****************************'']),
        (Stdout, ''Writing result summary to file...''),
        (Stdout, ''Result summary written successfully at: cy-repeat-summary.txt''),
        (Stdout, ''***** finished 2 run(s) successfully *****''),
        (Stderr, ''Error: Failures detected and conditions met''),
        (Stdout, ''Exiting with failure due to an error.'')]"
proof -
  obtain s where c: "chain (mode_of twice) demo_options always_failing
        (arg_rest twice) (banner (mode_of twice) init)
        = (Rejected ''Failures detected and conditions met'', s)"
    and s: "map call_k (calls s) = [0]" "\<not> anyTestFailed s" "totals s = (3, 2, 1, 0)"
      "console s =
         [(Stdout, ''cypress-repeat-pro: will repeat Cypress command 2 time(s)''),
          (Stdout, ''***** cypress-repeat-pro: 1 of 2 *****''),
          (Stderr, ''cypress-repeat-pro: run 1 of 2 failed'')]"
    using default_failing_chain by (elim exE conjE) (rule that, assumption+)
  have m: "repeatNtimes (mode_of twice) = 2" "\<not> forceContinue (mode_of twice)"
    by (simp_all add: args_defs)
  have M: "main twice demo_options always_failing ''cy-repeat-summary.txt'' write_ok
     = catch_handler (mode_of twice) ''Failures detected and conditions met''
         (finally_handler (mode_of twice) ''cy-repeat-summary.txt'' write_ok s)"
    by (rule main_rejected [OF c])
  have rs: "resultSummary s = join [CHR 0x0A]
           [''***** Repeat Run Summary *****'', ''Total Tests with repeat: 3'', ''Total Passed: 2'',
            ''Total Failed: 1'', ''Total Skipped: 0'', ''*****************************'']"
    by (simp add: resultSummary_totals [OF s(3)] show_int_def show_nat_digit digits)
  have 1: "calls (main twice demo_options always_failing ''cy-repeat-summary.txt'' write_ok) = calls s"
    unfolding M by (simp only: catch_handler_keeps finally_handler_keeps)
  have 2: "anyTestFailed (main twice demo_options always_failing ''cy-repeat-summary.txt'' write_ok)
      = anyTestFailed s"
    unfolding M by (simp only: catch_handler_keeps finally_handler_keeps)
  have 3: "console (main twice demo_options always_failing ''cy-repeat-summary.txt'' write_ok) =
     console s @
     [(Stdout, ''Entering final result summary block...''),
      (Stdout, resultSummary s),
      (Stdout, ''Writing result summary to file...''),
      (Stdout, ''Result summary written successfully at: cy-repeat-summary.txt''),
      (Stdout, ''***** finished 2 run(s) successfully *****''),
      (Stderr, ''Error: Failures detected and conditions met''),
      (Stdout, ''Exiting with failure due to an error.'')]"
    unfolding M catch_handler_console finally_handler_console
    by (simp add: s(2) m write_ok_def show_int_def show_nat_digit digits)
  show ?thesis
    unfolding 1 2 3 rs s(1,4) using s(2) by simp
qed

subsection \<open>C3: rerun-failed-only with no failed spec\<close>

lemma rerun_passing_chain:
  "\<exists>s. chain (mode_of twice_rerun_failed_only) demo_options always_passing
          (arg_rest twice_rerun_failed_only) (banner (mode_of twice_rerun_failed_only) init)
        = (Resolved, s)
     \<and> map call_k (calls s) = [0, 1]"
  unfolding chain_def
  apply (simp add: args_defs demo_build cliArgs_of_def)
  apply (simp add: mapSeries_unfold attempt_defs always_passing_def passing_def banner_def init_def)
  done

text \<open>
  C3 says that with \<open>rerunFailedOnly\<close>, a non-final attempt without failed files and
  \<open>forceContinue\<close> false stops the orchestration: no further attempt runs. In the code
  the handler returns a resolved promise there (line 122), so \<open>mapSeries\<close> goes on: with
  \<open>-n 2 --rerun-failed-only\<close> and a first attempt in which no file fails, attempt 2 runs.
\<close>

theorem rerun_no_failed_specs_runs_on:
  "map call_k (calls (main twice_rerun_failed_only demo_options always_passing
      ''cy-repeat-summary.txt'' write_ok)) = [0, 1]"
proof -
  obtain s where c: "chain (mode_of twice_rerun_failed_only) demo_options always_passing
          (arg_rest twice_rerun_failed_only) (banner (mode_of twice_rerun_failed_only) init)
        = (Resolved, s)"
    and s: "map call_k (calls s) = [0, 1]"
    using rerun_passing_chain by (elim exE conjE) (rule that, assumption+)
  show ?thesis
    unfolding main_resolved [OF c] by (simp only: finally_handler_keeps s)
qed

text \<open>
  C3 as the code has it: the handler resolves at once, before the checks of lines
  127-153, and the orchestration continues. The next attempt is the next call of
  \<open>cypress.run\<close>, and it is given options that no patch has touched: the store is as it
  was.
\<close>

theorem rerun_no_failed_specs_continues:
  assumes "rerunFailedOnly m" and "\<not> forceContinue m"
    and "Suc k < length allRunOptions"
    and "cypress_run k (heap s) (allRunOptions ! k) = Inr r"
    and "runs r = Some rs" and "\<forall>x\<in>set rs. stats_failures x = 0"
  shows "\<exists>s'. mapSeries m cypress_run allRunOptions k s = mapSeries m cypress_run allRunOptions (Suc k) s'
            \<and> heap s' = heap s
            \<and> (\<exists>cs. calls (snd (mapSeries m cypress_run allRunOptions k s)) =
                  calls s' @ \<lparr>call_k = Suc k, call_options = heap s ! (allRunOptions ! Suc k),
                      call_result = cypress_run (Suc k) (heap s) (allRunOptions ! Suc k)\<rparr> # cs)"
proof -
  let ?s' = "log (name @ '' there were no failed specs'')
               (update_totals r (started cypress_run allRunOptions k s))"
  have k: "k < length allRunOptions" using assms(3) by simp
  have o: "onTestResults m allRunOptions k (length allRunOptions) r (started cypress_run allRunOptions k s)
             = (Resolved, ?s')"
    by (rule onTestResults_no_failed_specs [OF assms(1,2,3,5,6)])
  have n: "mapSeries m cypress_run allRunOptions k s = mapSeries m cypress_run allRunOptions (Suc k) ?s'"
    by (rule mapSeries_next [OF k assms(4) o])
  have h: "heap ?s' = heap s" by simp
  obtain cs where "calls (snd (mapSeries m cypress_run allRunOptions (Suc k) ?s')) =
      calls ?s' @ \<lparr>call_k = Suc k, call_options = heap ?s' ! (allRunOptions ! Suc k),
                      call_result = cypress_run (Suc k) (heap ?s') (allRunOptions ! Suc k)\<rparr> # cs"
    using mapSeries_first_call [OF assms(3)] by blast
  then show ?thesis using n h by (intro exI [of _ ?s']) simp
qed

theorem rerun_no_failed_specs_continues_witness:
  "\<exists>s'. mapSeries (mode_of twice_rerun_failed_only) always_passing [1, 2] 0 demo_state =
          mapSeries (mode_of twice_rerun_failed_only) always_passing [1, 2] (Suc 0) s'
      \<and> heap s' = heap demo_state
      \<and> (\<exists>cs. calls (snd (mapSeries (mode_of twice_rerun_failed_only) always_passing [1, 2] 0 demo_state)) =
             calls s' @ \<lparr>call_k = Suc 0, call_options = heap demo_state ! ([1, 2] ! Suc 0),
                 call_result = always_passing (Suc 0) (heap demo_state) ([1, 2] ! Suc 0)\<rparr> # cs)"
  by (rule rerun_no_failed_specs_continues
        [where rs = "[\<lparr> stats_failures = 0, spec_relative = ''cypress/e2e/spec.cy.js'' \<rparr>]"
           and r = passing])
    (simp_all add: args_defs always_passing_def passing_def)

subsection \<open>C4: the failed specs become the next attempt's specs\<close>

lemma nameless_chain:
  "\<exists>s e. chain (mode_of twice_rerun_failed_only) demo_options always_nameless
          (arg_rest twice_rerun_failed_only) (banner (mode_of twice_rerun_failed_only) init)
        = (Rejected e, s)
     \<and> map call_k (calls s) = [0, 1]
     \<and> map call_options (calls s) =
         [[(''spec'', VStr ''cypress/e2e/spec.cy.js''),
           (''env'', VStr ''cypress_repeat_n=2,cypress_repeat_k=1'')],
          [(''spec'', VStr ''cypress/e2e/spec.cy.js''),
           (''env'', VStr ''cypress_repeat_n=2,cypress_repeat_k=2'')]]"
  unfolding chain_def
  apply (simp add: args_defs demo_build cliArgs_of_def)
  apply (simp add: mapSeries_unfold attempt_defs always_nameless_def nameless_failing_def banner_def init_def)
  done

text \<open>
  C4 says that with \<open>rerunFailedOnly\<close>, after a non-final attempt in which at least one
  file has failures, the options of the next attempt are patched to exactly the files
  with failures. The code joins the names of those files with commas and patches only
  if the joined string is not empty (line 115): when the only file with failures has
  the empty name, the next attempt runs with the specs it had.
\<close>

theorem nameless_failed_spec_not_patched:
  "runs nameless_failing = Some [\<lparr> stats_failures = 1, spec_relative = '''' \<rparr>]
   \<and> map call_k (calls (main twice_rerun_failed_only demo_options always_nameless
          ''cy-repeat-summary.txt'' write_ok)) = [0, 1]
   \<and> map call_options (calls (main twice_rerun_failed_only demo_options always_nameless
          ''cy-repeat-summary.txt'' write_ok)) =
         [[(''spec'', VStr ''cypress/e2e/spec.cy.js''),
           (''env'', VStr ''cypress_repeat_n=2,cypress_repeat_k=1'')],
          [(''spec'', VStr ''cypress/e2e/spec.cy.js''),
           (''env'', VStr ''cypress_repeat_n=2,cypress_repeat_k=2'')]]"
proof -
  obtain s e where c: "chain (mode_of twice_rerun_failed_only) demo_options always_nameless
          (arg_rest twice_rerun_failed_only) (banner (mode_of twice_rerun_failed_only) init)
        = (Rejected e, s)"
    and s: "map call_k (calls s) = [0, 1]"
      "map call_options (calls s) =
         [[(''spec'', VStr ''cypress/e2e/spec.cy.js''),
           (''env'', VStr ''cypress_repeat_n=2,cypress_repeat_k=1'')],
          [(''spec'', VStr ''cypress/e2e/spec.cy.js''),
           (''env'', VStr ''cypress_repeat_n=2,cypress_repeat_k=2'')]]"
    using nameless_chain by (elim exE conjE) (rule that, assumption+)
  have "calls (main twice_rerun_failed_only demo_options always_nameless
          ''cy-repeat-summary.txt'' write_ok) = calls s"
    unfolding main_rejected [OF c] by (simp only: catch_handler_keeps finally_handler_keeps)
  then show ?thesis using s by (simp add: nameless_failing_def)
qed

text \<open>
  C4 as the code has it: unless the files with failures are one file with the empty
  name, the \<open>spec\<close> property of the options object of the next attempt becomes the
  comma-joined list of exactly the files with failures. Either the handler then rejects
  and no further attempt runs, or the next call of \<open>cypress.run\<close> is attempt \<open>k + 1\<close> and
  it is given that object. In the witness the options selected the specs by a pattern
  before the attempt, one of three files passes, and the patch names the other two.
\<close>

theorem failed_specs_patch_next_attempt:
  assumes "rerunFailedOnly m" and "Suc k < length allRunOptions"
    and "cypress_run k (heap s) (allRunOptions ! k) = Inr r"
    and "runs r = Some rs"
    and "\<exists>x\<in>set rs. stats_failures x \<noteq> 0"
    and "map spec_relative (filter (\<lambda>x. stats_failures x \<noteq> 0) rs) \<noteq> [[]]"
    and "allRunOptions ! Suc k < length (heap s)"
  shows "\<exists>s'. get_prop (heap s') (allRunOptions ! Suc k) ''spec'' =
               VStr (join '','' (map spec_relative (filter (\<lambda>x. stats_failures x \<noteq> 0) rs)))
      \<and> ((\<exists>e. mapSeries m cypress_run allRunOptions k s = (Rejected e, s'))
         \<or> (mapSeries m cypress_run allRunOptions k s = mapSeries m cypress_run allRunOptions (Suc k) s'
            \<and> (\<exists>cs. calls (snd (mapSeries m cypress_run allRunOptions k s)) =
                  calls s' @ \<lparr>call_k = Suc k, call_options = heap s' ! (allRunOptions ! Suc k),
                      call_result = cypress_run (Suc k) (heap s') (allRunOptions ! Suc k)\<rparr> # cs)))"
proof -
  let ?s0 = "started cypress_run allRunOptions k s"
  obtain x s' where o: "onTestResults m allRunOptions k (length allRunOptions) r ?s0 = (x, s')"
    by (cases "onTestResults m allRunOptions k (length allRunOptions) r ?s0")
  have k: "k < length allRunOptions" using assms(2) by simp
  have l: "\<not> (int k = int (length allRunOptions) - 1)" using assms(2) by simp
  have "filter (\<lambda>run. stats_failures run \<noteq> 0) rs \<noteq> []"
    using assms(5) by (auto simp: filter_empty_conv)
  then have f: "failedSpecs_of rs \<noteq> []"
    using assms(6) by (simp add: failedSpecs_of_def join_empty_iff)
  have "heap s' = heap (snd (rerun_part m allRunOptions k (int k = int (length allRunOptions) - 1) r
                    (update_totals r ?s0)))"
    using onTestResults_heap [of m allRunOptions k "length allRunOptions" r ?s0] o by simp
  also have "\<dots> = set_prop (heap s) (allRunOptions ! Suc k) ''spec'' (VStr (failedSpecs_of rs))"
    using rerun_part_patch [OF assms(1) l assms(2,4) f, of "update_totals r ?s0"] by simp
  finally have h: "heap s' = set_prop (heap s) (allRunOptions ! Suc k) ''spec'' (VStr (failedSpecs_of rs))" .
  have g: "get_prop (heap s') (allRunOptions ! Suc k) ''spec'' =
               VStr (join '','' (map spec_relative (filter (\<lambda>x. stats_failures x \<noteq> 0) rs)))"
    unfolding h using assms(7) by (simp add: get_prop_set_prop failedSpecs_of_def)
  show ?thesis
  proof (cases x)
    case (Rejected e)
    then have "mapSeries m cypress_run allRunOptions k s = (Rejected e, s')"
      using mapSeries_reject [where run = cypress_run and s = s, OF k assms(3)] o by simp
    with g show ?thesis by (intro exI [of _ s']) simp
  next
    case Resolved
    then have n: "mapSeries m cypress_run allRunOptions k s = mapSeries m cypress_run allRunOptions (Suc k) s'"
      using mapSeries_next [where run = cypress_run and s = s, OF k assms(3)] o by simp
    obtain cs where "calls (snd (mapSeries m cypress_run allRunOptions (Suc k) s')) =
      calls s' @ \<lparr>call_k = Suc k, call_options = heap s' ! (allRunOptions ! Suc k),
                      call_result = cypress_run (Suc k) (heap s') (allRunOptions ! Suc k)\<rparr> # cs"
      using mapSeries_first_call [OF assms(2)] by blast
    with g n show ?thesis by (intro exI [of _ s']) simp
  qed
qed

theorem failed_specs_patch_next_attempt_witness:
  "get_prop (heap glob_state) ([1, 2] ! Suc 0) ''spec'' = VStr ''cypress/e2e/*.cy.js''
   \<and> (\<exists>s'. get_prop (heap s') ([1, 2] ! Suc 0) ''spec'' =
               VStr ''cypress/e2e/a.cy.js,cypress/e2e/c.cy.js''
      \<and> ((\<exists>e. mapSeries (mode_of twice_rerun_failed_only) always_two_of_three [1, 2] 0 glob_state
                 = (Rejected e, s'))
         \<or> (mapSeries (mode_of twice_rerun_failed_only) always_two_of_three [1, 2] 0 glob_state =
               mapSeries (mode_of twice_rerun_failed_only) always_two_of_three [1, 2] (Suc 0) s'
            \<and> (\<exists>cs. calls (snd (mapSeries (mode_of twice_rerun_failed_only) always_two_of_three
                               [1, 2] 0 glob_state)) =
                  calls s' @ \<lparr>call_k = Suc 0, call_options = heap s' ! ([1, 2] ! Suc 0),
                      call_result = always_two_of_three (Suc 0) (heap s') ([1, 2] ! Suc 0)\<rparr> # cs))))"
  using failed_specs_patch_next_attempt
    [where m = "mode_of twice_rerun_failed_only" and k = 0 and allRunOptions = "[1, 2]"
       and cypress_run = always_two_of_three and s = glob_state and r = two_of_three_failing
       and rs = "[\<lparr> stats_failures = 1, spec_relative = ''cypress/e2e/a.cy.js'' \<rparr>,
                  \<lparr> stats_failures = 0, spec_relative = ''cypress/e2e/b.cy.js'' \<rparr>,
                  \<lparr> stats_failures = 2, spec_relative = ''cypress/e2e/c.cy.js'' \<rparr>]"]
  by (simp add: args_defs always_two_of_three_def two_of_three_failing_def glob_state_def get_prop_def)

subsection \<open>C5: the summary is produced once, whatever ended the chain\<close>




subsection \<open>C8: the shape of the summary\<close>

text \<open>
  C8: the summary that is written has six lines, whatever happened before: the header,
  the four counts (tests, passed, failed, skipped) and the footer.
\<close>

theorem summary_has_six_lines:
  "map split_lines (writes (main args parseRunArguments cypress_run summaryFilePath writeFileSync)) =
     [[''***** Repeat Run Summary *****'',
       ''Total Tests with repeat: '' @
          show_int (totalTests (main args parseRunArguments cypress_run summaryFilePath writeFileSync)),
       ''Total Passed: '' @
          show_int (totalPassed (main args parseRunArguments cypress_run summaryFilePath writeFileSync)),
       ''Total Failed: '' @
          show_int (totalFailed (main args parseRunArguments cypress_run summaryFilePath writeFileSync)),
       ''Total Skipped: '' @
          show_int (totalSkipped (main args parseRunArguments cypress_run summaryFilePath writeFileSync)),
       ''*****************************'']]"
  by (simp add: main_writes resultSummary_lines)

subsection \<open>C10: counts that are missing\<close>

text \<open>
  C10: a count that the results do not carry adds zero to its counter, so each counter
  after the handler is the counter before plus the count, or plus zero.
\<close>

theorem missing_counts_add_zero:
  "totalTests (snd (onTestResults m allRunOptions k n r s)) =
     totalTests s + (case r_totalTests r of None \<Rightarrow> 0 | Some v \<Rightarrow> v)
   \<and> totalPassed (snd (onTestResults m allRunOptions k n r s)) =
     totalPassed s + (case r_totalPassed r of None \<Rightarrow> 0 | Some v \<Rightarrow> v)
   \<and> totalFailed (snd (onTestResults m allRunOptions k n r s)) =
     totalFailed s + (case r_totalFailed r of None \<Rightarrow> 0 | Some v \<Rightarrow> v)
   \<and> totalSkipped (snd (onTestResults m allRunOptions k n r s)) =
     totalSkipped s + (case r_totalSkipped r of None \<Rightarrow> 0 | Some v \<Rightarrow> v)"
  by (simp add: onTestResults_counts or0_def split: option.splits)

theorem missing_counts_add_zero_witness:
  "totalTests (snd (onTestResults (mode_of twice) [1, 2] 0 2 no_counts init)) = 0
   \<and> totalPassed (snd (onTestResults (mode_of twice) [1, 2] 0 2 no_counts init)) = 0
   \<and> totalFailed (snd (onTestResults (mode_of twice) [1, 2] 0 2 no_counts init)) = 0
   \<and> totalSkipped (snd (onTestResults (mode_of twice) [1, 2] 0 2 no_counts init)) = 0"
  using missing_counts_add_zero [of "mode_of twice" "[1, 2]" 0 2 no_counts init]
  by (simp add: no_counts_def init_def)

end
